theory Spec2Isabelle
  imports Main "HOL-Library.Multiset"
begin

section \<open>Timers of the platform\<close>

text \<open>
  \<open>TimeoutTrigger\<close> keeps one Node.js \<open>Timeout\<close> object. Three operations of the
  platform are used on it: creation, \<open>refresh()\<close> and \<open>clearTimeout\<close>. A timer
  object is modelled by the duration it was created with, its pending deadline (if any)
  and whether it has been passed to \<open>clearTimeout\<close>:
  \<^item> \<open>refresh()\<close> re-arms a timer that is pending or that has already called back, at
    the current time plus the original duration; on a timer that was cleared it has no
    observable effect (the callback never runs again), which is what the comment in
    \<open>discard()\<close> records;
  \<^item> \<open>clearTimeout(undefined)\<close> does nothing.
\<close>

record timer =
  duration :: int
  due :: "int option"
  cleared :: bool

text \<open>
  Modelled from the spec: \<open>setCappedTimeout\<close> of \<open>lib/now-and-timers.cjs\<close>, which is not
  among the sources. The spec has \<open>debounce()\<close> schedule the firing at now+wait when no
  timer is pending, so the new timer is due at \<open>now + waitMs\<close>.
\<close>

definition setCappedTimeout :: "int \<Rightarrow> int \<Rightarrow> timer" where
  "setCappedTimeout now delay = \<lparr>duration = delay, due = Some (now + delay), cleared = False\<rparr>"

definition refresh :: "int \<Rightarrow> timer \<Rightarrow> timer" where
  "refresh now t = (if cleared t then t else t\<lparr>due := Some (now + duration t)\<rparr>)"

fun clearTimeout :: "timer option \<Rightarrow> timer option" where
  "clearTimeout None = None"
| "clearTimeout (Some t) = Some (t\<lparr>due := None, cleared := True\<rparr>)"

section \<open>class TimeoutTrigger\<close>

text \<open>
  The two functions given to the constructor in \<open>Api.run\<close>: the timeout handler, which
  closes over the parsed timeout, and the empty function.
\<close>

datatype callback = TimeoutHandler int | EmptyFunction

record TimeoutTrigger =
  fn :: callback
  ignoreUntil :: int
  waitMs :: int
  timer :: "timer option"

definition new_TimeoutTrigger :: "callback \<Rightarrow> int \<Rightarrow> TimeoutTrigger" where
  "new_TimeoutTrigger f w = \<lparr>fn = f, ignoreUntil = 0, waitMs = w, timer = None\<rparr>"

definition debounce :: "int \<Rightarrow> TimeoutTrigger \<Rightarrow> TimeoutTrigger" where
  "debounce now tt =
     (case timer tt of
        None \<Rightarrow> tt\<lparr>timer := Some (setCappedTimeout now (waitMs tt))\<rparr>
      | Some t \<Rightarrow> tt\<lparr>timer := Some (refresh now t)\<rparr>)"

definition discard :: "TimeoutTrigger \<Rightarrow> TimeoutTrigger" where
  "discard tt = tt\<lparr>timer := clearTimeout (timer tt)\<rparr>"

definition ignoreFor :: "int \<Rightarrow> int \<Rightarrow> TimeoutTrigger \<Rightarrow> TimeoutTrigger" where
  "ignoreFor now periodMs tt = tt\<lparr>ignoreUntil := max (ignoreUntil tt) (now + periodMs)\<rparr>"

text \<open>\<open>trigger()\<close> at time \<open>now\<close>: the function to call, if it is called.\<close>

definition trigger :: "int \<Rightarrow> TimeoutTrigger \<Rightarrow> callback option" where
  "trigger now tt = (if now \<ge> ignoreUntil tt then Some (fn tt) else None)"

text \<open>
  The event loop reaches time \<open>now\<close>: a pending timer whose deadline has passed is taken
  off the schedule and its callback \<open>() => this.trigger()\<close> runs. Nothing happens when no
  timer is due.
\<close>

definition expire :: "int \<Rightarrow> TimeoutTrigger \<Rightarrow> TimeoutTrigger \<times> callback option" where
  "expire now tt =
     (case timer tt of
        None \<Rightarrow> (tt, None)
      | Some t \<Rightarrow>
          (case due t of
             None \<Rightarrow> (tt, None)
           | Some d \<Rightarrow>
               if d \<le> now then (tt\<lparr>timer := Some (t\<lparr>due := None\<rparr>)\<rparr>, trigger now tt)
               else (tt, None)))"

text \<open>The deadline the watchdog is armed for, if it is armed.\<close>

definition deadline :: "TimeoutTrigger \<Rightarrow> int option" where
  "deadline tt = (case timer tt of None \<Rightarrow> None | Some t \<Rightarrow> due t)"

section \<open>Data of a run\<close>

text \<open>JavaScript exceptions as values: an \<open>Error\<close> raised by a collaborator, or the
  \<open>TypeError\<close> of reading a property of \<open>undefined\<close>.\<close>

datatype error = Error string | TypeError string

text \<open>A state-change record: its \<open>type\<close> tag and the properties the orchestrator reads or
  writes. \<open>serializeError\<close> (not among the sources) is taken as the identity.\<close>

record state_change =
  etype :: string
  testFile :: "string option"
  period :: "int option"
  err :: "error option"
  files :: "string list option"

definition plain_event :: "string \<Rightarrow> state_change" where
  "plain_event t = \<lparr>etype = t, testFile = None, period = None, err = None, files = None\<rparr>"

definition timeout_event :: "int \<Rightarrow> state_change" where
  "timeout_event p = (plain_event ''timeout'')\<lparr>period := Some p\<rparr>"

definition interrupt_event :: state_change where
  "interrupt_event = plain_event ''interrupt''"

definition internal_error_event :: "error \<Rightarrow> state_change" where
  "internal_error_event e = (plain_event ''internal-error'')\<lparr>err := Some e\<rparr>"

definition touched_files_event :: "string list \<Rightarrow> state_change" where
  "touched_files_event fs = (plain_event ''touched-files'')\<lparr>files := Some fs\<rparr>"

text \<open>What a worker passes to the listener registered with \<open>worker.onStateChange\<close>: a
  \<open>test-timeout-configured\<close> record, which carries its period, or a record of another type.\<close>

datatype worker_data = TestTimeoutConfigured int | OtherData string

record selection_insights =
  applied_filter :: "string list"
  ignoredFilterPatternFiles :: "string list"
  testFileCount :: nat
  selectionCount :: nat

text \<open>
  Modelled from the spec: the Run Status of \<open>lib/run-status.js\<close>, which is not among the
  sources. The spec gives it the total file count, the optional partition descriptor, the
  selection insights and one ordered stream of state-change events; \<open>emitStateChange\<close>
  injects an event into the stream, and \<open>end()\<close> marks the run complete, emits a final
  \<open>stats\<close> snapshot and returns the status. \<open>ended\<close> counts the calls of \<open>end()\<close>.
\<close>

record RunStatus =
  fileCount :: nat
  parallelRuns :: "(nat \<times> nat \<times> nat) option"
  selectionInsights :: selection_insights
  events :: "state_change list"
  ended :: nat

definition new_RunStatus ::
  "nat \<Rightarrow> (nat \<times> nat \<times> nat) option \<Rightarrow> selection_insights \<Rightarrow> RunStatus" where
  "new_RunStatus n pr ins =
     \<lparr>fileCount = n, parallelRuns = pr, selectionInsights = ins, events = [], ended = 0\<rparr>"

definition emitStateChange :: "state_change \<Rightarrow> RunStatus \<Rightarrow> RunStatus" where
  "emitStateChange ev rs = rs\<lparr>events := events rs @ [ev]\<rparr>"

definition RunStatus_end :: "RunStatus \<Rightarrow> RunStatus" where
  "RunStatus_end rs = rs\<lparr>events := events rs @ [plain_event ''stats''], ended := Suc (ended rs)\<rparr>"

text \<open>A Worker Handle: an object with an identity (the number of the \<open>fork\<close> call that
  made it) and the file it runs. The calls made on handles are logged in order.\<close>

record worker =
  wid :: nat
  worker_file :: string

datatype call = Fork worker | Exit worker | NotifyOfPeerFailure worker

text \<open>A JavaScript \<open>Set\<close>, iterated in insertion order.\<close>

definition set_add :: "'a \<Rightarrow> 'a list \<Rightarrow> 'a list" where
  "set_add x xs = (if x \<in> set xs then xs else xs @ [x])"

definition set_delete :: "'a \<Rightarrow> 'a list \<Rightarrow> 'a list" where
  "set_delete x xs = removeAll x xs"

section \<open>Options of the Api\<close>

text \<open>
  The options \<open>Api.run\<close> reads. \<open>opt_timeout\<close> is \<open>None\<close> when \<open>apiOptions.timeout\<close> is
  falsy and otherwise the number of milliseconds \<open>ms\<close> parses it to; \<open>opt_debug\<close> is
  \<open>None\<close> when \<open>apiOptions.debug\<close> is falsy and otherwise the \<open>active\<close> flag of the debug
  object; \<open>opt_concurrency\<close> is \<open>None\<close> when the option is not a number;
  \<open>opt_parallelRuns\<close> is the pair \<open>(currentIndex, totalRuns)\<close>.
\<close>

record options =
  opt_failFast :: bool
  opt_timeout :: "int option"
  opt_debug :: "bool option"
  opt_serial :: bool
  opt_concurrency :: "int option"
  opt_parallelRuns :: "(nat \<times> nat) option"
  opt_sortTestFiles :: "(string \<Rightarrow> string \<Rightarrow> int) option"

section \<open>The closure of one run and its callbacks\<close>

text \<open>
  The variables \<open>Api.run\<close> declares before it looks for test files and that its callbacks
  close over, with the log of calls made on Worker Handles and the exceptions thrown out
  of callbacks. \<open>runStatus\<close> is \<open>None\<close> until the status is constructed.
\<close>

record run_state =
  failFast :: bool
  debugging :: bool
  bailed :: bool
  pendingWorkers :: "worker list"
  timedOutWorkerFiles :: "string list"
  timeoutTrigger :: TimeoutTrigger
  runStatus :: "RunStatus option"
  calls :: "call list"
  forks :: nat
  thrown :: "error list"

definition make_timeoutTrigger :: "options \<Rightarrow> TimeoutTrigger" where
  "make_timeoutTrigger opts =
     (case opt_timeout opts of
        Some timeout \<Rightarrow>
          if opt_debug opts = None then new_TimeoutTrigger (TimeoutHandler timeout) timeout
          else new_TimeoutTrigger EmptyFunction 0
      | None \<Rightarrow> new_TimeoutTrigger EmptyFunction 0)"

definition initial :: "options \<Rightarrow> run_state" where
  "initial opts =
     \<lparr>failFast = opt_failFast opts, debugging = (opt_debug opts \<noteq> None), bailed = False,
      pendingWorkers = [], timedOutWorkerFiles = [],
      timeoutTrigger = make_timeoutTrigger opts, runStatus = None,
      calls = [], forks = 0, thrown = []\<rparr>"

definition undefined_runStatus :: error where
  "undefined_runStatus = TypeError ''Cannot read properties of undefined''"

text \<open>The three loops over \<open>pendingWorkers\<close>.\<close>

fun exit_timed_out :: "worker list \<Rightarrow> run_state \<Rightarrow> run_state" where
  "exit_timed_out [] s = s"
| "exit_timed_out (w # ws) s =
     exit_timed_out ws
       (s\<lparr>timedOutWorkerFiles := set_add (worker_file w) (timedOutWorkerFiles s),
          calls := calls s @ [Exit w]\<rparr>)"

fun exit_all :: "worker list \<Rightarrow> run_state \<Rightarrow> run_state" where
  "exit_all [] s = s"
| "exit_all (w # ws) s = exit_all ws (s\<lparr>calls := calls s @ [Exit w]\<rparr>)"

fun notify_all :: "worker list \<Rightarrow> run_state \<Rightarrow> run_state" where
  "notify_all [] s = s"
| "notify_all (w # ws) s = notify_all ws (s\<lparr>calls := calls s @ [NotifyOfPeerFailure w]\<rparr>)"

text \<open>Calling the function a \<open>TimeoutTrigger\<close> holds (lines 110-123 and 125).\<close>

fun call_fn :: "callback \<Rightarrow> run_state \<Rightarrow> run_state" where
  "call_fn EmptyFunction s = s"
| "call_fn (TimeoutHandler timeout) s =
     (let s1 = (if failFast s then s\<lparr>bailed := True\<rparr> else s) in
      case runStatus s1 of
        None \<Rightarrow> s1\<lparr>thrown := thrown s1 @ [undefined_runStatus]\<rparr>
      | Some rs \<Rightarrow>
          exit_timed_out (pendingWorkers s1)
            (s1\<lparr>runStatus := Some (emitStateChange (timeout_event timeout) rs)\<rparr>))"

text \<open>\<open>this._interruptHandler\<close> (lines 128-145).\<close>

definition interruptHandler :: "run_state \<Rightarrow> run_state" where
  "interruptHandler s =
     (if bailed s then s
      else
        let s1 = s\<lparr>bailed := True, timeoutTrigger := discard (timeoutTrigger s)\<rparr> in
        case runStatus s1 of
          None \<Rightarrow> s1\<lparr>thrown := thrown s1 @ [undefined_runStatus]\<rparr>
        | Some rs \<Rightarrow>
            exit_all (pendingWorkers s1)
              (s1\<lparr>runStatus := Some (emitStateChange interrupt_event rs)\<rparr>))"

text \<open>The listener on the status's \<open>stateChange\<close> (lines 221-236). A string is truthy when
  it is not empty.\<close>

definition truthy :: "string option \<Rightarrow> bool" where
  "truthy x = (case x of None \<Rightarrow> False | Some f \<Rightarrow> f \<noteq> [])"

definition debounces :: "state_change \<Rightarrow> run_state \<Rightarrow> bool" where
  "debounces record s =
     (case testFile record of
        None \<Rightarrow> False
      | Some f \<Rightarrow> f \<noteq> [] \<and> f \<notin> set (timedOutWorkerFiles s)
          \<and> etype record \<noteq> ''worker-stderr'' \<and> etype record \<noteq> ''worker-stdout'')"

definition is_failure :: "state_change \<Rightarrow> bool" where
  "is_failure record =
     (etype record = ''hook-failed'' \<or> etype record = ''test-failed''
      \<or> etype record = ''worker-failed'')"

definition stateChange_listener :: "int \<Rightarrow> state_change \<Rightarrow> run_state \<Rightarrow> run_state" where
  "stateChange_listener now record s =
     (let s1 = (if debounces record s
                then s\<lparr>timeoutTrigger := debounce now (timeoutTrigger s)\<rparr> else s) in
      if failFast s1 \<and> is_failure record
      then notify_all (pendingWorkers s1) (s1\<lparr>bailed := True\<rparr>)
      else s1)"

text \<open>The listener given to \<open>worker.onStateChange\<close> (lines 285-289).\<close>

fun worker_listener :: "int \<Rightarrow> worker_data \<Rightarrow> run_state \<Rightarrow> run_state" where
  "worker_listener now (TestTimeoutConfigured p) s =
     (if \<not> debugging s then s\<lparr>timeoutTrigger := ignoreFor now p (timeoutTrigger s)\<rparr> else s)"
| "worker_listener now (OtherData t) s = s"

text \<open>
  The mapper given to \<open>pMap\<close> (lines 261-300), up to its \<open>await worker.promise\<close>: nothing
  when \<open>bailed\<close>; otherwise the file is forked, the handle is observed by the status,
  added to \<open>pendingWorkers\<close>, and the watchdog is debounced.
\<close>

definition mapper :: "int \<Rightarrow> string \<Rightarrow> run_state \<Rightarrow> run_state" where
  "mapper now f s =
     (if bailed s then s
      else
        let w = \<lparr>wid = forks s, worker_file = f\<rparr>;
            s1 = s\<lparr>forks := Suc (forks s), calls := calls s @ [Fork w]\<rparr> in
        case runStatus s1 of
          None \<Rightarrow> s1\<lparr>thrown := thrown s1 @ [undefined_runStatus]\<rparr>
        | Some rs \<Rightarrow>
            s1\<lparr>pendingWorkers := set_add w (pendingWorkers s1),
               timeoutTrigger := debounce now (timeoutTrigger s1)\<rparr>)"

text \<open>\<open>worker.promise.then(() => pendingWorkers.delete(worker))\<close>.\<close>

definition settled :: "worker \<Rightarrow> run_state \<Rightarrow> run_state" where
  "settled w s = s\<lparr>pendingWorkers := set_delete w (pendingWorkers s)\<rparr>"

text \<open>The watchdog's timer goes off at time \<open>now\<close>.\<close>

definition timer_expires :: "int \<Rightarrow> run_state \<Rightarrow> run_state" where
  "timer_expires now s =
     (case expire now (timeoutTrigger s) of
        (tt, None) \<Rightarrow> s\<lparr>timeoutTrigger := tt\<rparr>
      | (tt, Some f) \<Rightarrow> call_fn f (s\<lparr>timeoutTrigger := tt\<rparr>))"

text \<open>
  What the event loop can deliver to a run: the interrupt signal, the expiry of the
  watchdog's timer, a state change that the status forwards from an observed worker (it
  enters the status's stream and reaches the listener), a state change of a worker, the
  pool calling the mapper for a file, and the completion of a worker. Each carries the
  time at which it is handled where the handler reads the clock.
\<close>

datatype input =
    Sigint
  | TimerExpires int
  | StateChange int state_change
  | WorkerStateChange int worker_data
  | MapperCalled int string
  | WorkerSettled worker

fun step :: "input \<Rightarrow> run_state \<Rightarrow> run_state" where
  "step Sigint s = interruptHandler s"
| "step (TimerExpires now) s = timer_expires now s"
| "step (StateChange now record) s =
     (case runStatus s of
        None \<Rightarrow> s
      | Some rs \<Rightarrow> stateChange_listener now record (s\<lparr>runStatus := Some (emitStateChange record rs)\<rparr>))"
| "step (WorkerStateChange now d) s = worker_listener now d s"
| "step (MapperCalled now f) s = mapper now f s"
| "step (WorkerSettled w) s = settled w s"

definition exec :: "input list \<Rightarrow> run_state \<Rightarrow> run_state" where
  "exec inputs s = foldl (\<lambda>s i. step i s) s inputs"

section \<open>Concurrency of the pool\<close>

text \<open>Lines 249-256. \<open>isCi\<close> is the constant of \<open>lib/is-ci.js\<close> and \<open>cpus\<close> is
  \<open>os.cpus().length\<close>; both are parameters.\<close>

definition resolve_concurrency :: "options \<Rightarrow> bool \<Rightarrow> nat \<Rightarrow> int" where
  "resolve_concurrency opts isCi cpus =
     (let concurrency = max 1 (int cpus) in
      if opt_serial opts then 1
      else case opt_concurrency opts of
             Some c \<Rightarrow> if c > 0 then c else if isCi then 2 else concurrency
           | None \<Rightarrow> if isCi then 2 else concurrency)"

section \<open>Sorting and splitting for parallel runs\<close>

text \<open>\<open>Array.prototype.sort\<close> with a comparator, as the stable insertion sort: \<open>a\<close> stays
  before \<open>b\<close> when the comparator returns a value that is not positive.\<close>

fun insert_by :: "('a \<Rightarrow> 'a \<Rightarrow> int) \<Rightarrow> 'a \<Rightarrow> 'a list \<Rightarrow> 'a list" where
  "insert_by cmp x [] = [x]"
| "insert_by cmp x (y # ys) = (if cmp x y \<le> 0 then x # y # ys else y # insert_by cmp x ys)"

definition sort_by :: "('a \<Rightarrow> 'a \<Rightarrow> int) \<Rightarrow> 'a list \<Rightarrow> 'a list" where
  "sort_by cmp xs = foldr (insert_by cmp) xs []"

text \<open>
  Modelled from the spec: \<open>chunkd\<close>, the package of that name, which is not among the
  sources. The spec's Partition Splitter returns, for a zero-based job index and a total
  job count, a contiguous slice of the sorted list that is determined by the list, the
  index and the total alone. The slices are balanced: with \<open>size\<close> the quotient and
  \<open>remainder\<close> the remainder of the length by the total, the first \<open>remainder\<close> indices get
  \<open>size + 1\<close> files and the others \<open>size\<close>.
\<close>

definition chunkd :: "'a list \<Rightarrow> nat \<Rightarrow> nat \<Rightarrow> 'a list" where
  "chunkd array index totalRuns =
     (let size = length array div totalRuns;
          remainder = length array mod totalRuns;
          offset = min index remainder + index * size;
          chunk = size + (if index < remainder then 1 else 0)
      in take chunk (drop offset array))"

text \<open>Lines 175-194: the files this job runs and the status constructed for them. The
  default comparator (a numeric-aware \<open>localeCompare\<close>) is a parameter.\<close>

definition plan ::
  "options \<Rightarrow> (string \<Rightarrow> string \<Rightarrow> int) \<Rightarrow> string list \<Rightarrow> selection_insights
    \<Rightarrow> string list \<times> RunStatus" where
  "plan opts defaultComparator selectedFiles ins =
     (case opt_parallelRuns opts of
        Some (currentIndex, totalRuns) \<Rightarrow>
          let fileCount = length selectedFiles;
              sorted = sort_by (case opt_sortTestFiles opts of
                                  Some c \<Rightarrow> c | None \<Rightarrow> defaultComparator) selectedFiles;
              chunk = chunkd sorted currentIndex totalRuns
          in (chunk, new_RunStatus fileCount (Some (length chunk, currentIndex, totalRuns)) ins)
      | None \<Rightarrow>
          let sorted = (case opt_sortTestFiles opts of
                          Some c \<Rightarrow> sort_by c selectedFiles | None \<Rightarrow> selectedFiles)
          in (sorted, new_RunStatus (length sorted) None ins))"

section \<open>Api.run\<close>

text \<open>A selection of test files: the array, with the two properties
  \<open>applyTestFileFilter\<close> may attach to it.\<close>

record selection =
  selected :: "string list"
  appliedFilters :: "string list option"
  ignoredFiles :: "string list option"

definition plain_selection :: "string list \<Rightarrow> selection" where
  "plain_selection fs = \<lparr>selected = fs, appliedFilters = None, ignoredFiles = None\<rparr>"

text \<open>The arguments of \<open>run\<close>: \<open>files\<close>, the patterns of \<open>filter\<close>, and \<open>testFileSelector\<close>
  when it is a function.\<close>

record run_args =
  arg_files :: "string list"
  arg_filter :: "string list"
  testFileSelector :: "(string list \<Rightarrow> string list \<Rightarrow> error + selection) option"

text \<open>
  What the collaborators of one invocation do: the outcome of \<open>globs.findTests\<close>, the
  functions \<open>globs.applyTestFileFilter\<close> and \<open>scheduler.failingTestsFirst\<close>, the default
  comparator, whether emitting \<open>run\<close>, compiling the providers or the pool fail, what
  \<open>scheduler.storeFailedTestFiles\<close> returns, and what the event loop delivers while \<open>run\<close>
  is suspended: interrupt signals while it awaits \<open>findTests\<close> and while it awaits the
  listeners of \<open>run\<close>, and the inputs of the pool.
\<close>

record environment =
  findTests :: "error + string list"
  applyTestFileFilter :: "string list \<Rightarrow> string list \<Rightarrow> error + selection"
  defaultComparator :: "string \<Rightarrow> string \<Rightarrow> int"
  failingTestsFirst :: "string list \<Rightarrow> string list"
  sigints_while_finding :: nat
  emit_run :: "error option"
  sigints_while_announcing :: nat
  compile :: "error option"
  pool_inputs :: "input list"
  pMap_result :: "error option"
  storeFailedTestFiles :: "error + string list option"

text \<open>The \<open>run\<close> event: the properties of its payload that come from the modelled state,
  with the status as it is when the event is emitted.\<close>

record run_event =
  bailWithoutReporting :: bool
  debug :: bool
  failFastEnabled :: bool
  run_files :: "string list"
  status :: RunStatus

text \<open>Lines 149-165: the test files found (if any), the selection, and the error
  remembered in \<open>setupOrGlobError\<close> (if any).\<close>

definition select_files ::
  "environment \<Rightarrow> run_args \<Rightarrow> string list option \<times> selection \<times> error option" where
  "select_files env args =
     (case findTests env of
        Inl e \<Rightarrow> (None, plain_selection [], Some e)
      | Inr testFiles \<Rightarrow>
          (case testFileSelector args of
             Some selector \<Rightarrow>
               (case selector testFiles (arg_files args) of
                  Inl e \<Rightarrow> (Some testFiles, plain_selection [], Some e)
                | Inr sel \<Rightarrow> (Some testFiles, sel, None))
           | None \<Rightarrow>
               if arg_files args = [] then
                 (if arg_filter args = [] then (Some testFiles, plain_selection testFiles, None)
                  else
                    (case applyTestFileFilter env (arg_filter args) testFiles of
                       Inl e \<Rightarrow> (Some testFiles, plain_selection [], Some e)
                     | Inr sel \<Rightarrow> (Some testFiles, sel, None)))
               else (Some testFiles, plain_selection (arg_files args), None)))"

text \<open>Lines 167-172, outside both \<open>try\<close> blocks: \<open>testFiles.length\<close> is read whether or
  not \<open>testFiles\<close> was assigned.\<close>

definition make_selectionInsights ::
  "run_args \<Rightarrow> string list option \<Rightarrow> selection \<Rightarrow> error + selection_insights" where
  "make_selectionInsights args testFiles sel =
     (case testFiles of
        None \<Rightarrow> Inl (TypeError ''Cannot read properties of undefined (reading 'length')'')
      | Some tf \<Rightarrow>
          Inr \<lparr>applied_filter = (case appliedFilters sel of Some a \<Rightarrow> a | None \<Rightarrow> arg_filter args),
               ignoredFilterPatternFiles = (case ignoredFiles sel of Some i \<Rightarrow> i | None \<Rightarrow> []),
               testFileCount = length tf,
               selectionCount = length (selected sel)\<rparr>)"

text \<open>How the second \<open>try\<close> block (lines 174-307) is left: by its \<open>return runStatus\<close>, by
  an exception, or at its end.\<close>

datatype completion = Return | Throw error | Done

definition debugWithoutSpecificFile :: "options \<Rightarrow> string list \<Rightarrow> bool" where
  "debugWithoutSpecificFile opts selectedFiles =
     (case opt_debug opts of
        None \<Rightarrow> False
      | Some active \<Rightarrow> \<not> active \<and> length selectedFiles \<noteq> 1)"

definition try_body ::
  "options \<Rightarrow> environment \<Rightarrow> selection \<Rightarrow> error option \<Rightarrow> selection_insights \<Rightarrow> run_state
    \<Rightarrow> completion \<times> run_state \<times> run_event list" where
  "try_body opts env sel setupOrGlobError ins s =
     (let (planned, rs) = plan opts (defaultComparator env) (selected sel) ins;
          s1 = s\<lparr>runStatus := Some rs\<rparr>;
          selectedFiles = failingTestsFirst env planned;
          ev = \<lparr>bailWithoutReporting = debugWithoutSpecificFile opts selectedFiles,
                debug = (opt_debug opts \<noteq> None), failFastEnabled = failFast s,
                run_files = selectedFiles, status = rs\<rparr>;
          s2 = exec (replicate (sigints_while_announcing env) Sigint) s1
      in case emit_run env of
           Some e \<Rightarrow> (Throw e, s2, [ev])
         | None \<Rightarrow>
           (case setupOrGlobError of
              Some e \<Rightarrow> (Throw e, s2, [ev])
            | None \<Rightarrow>
              if selectedFiles = [] \<or> debugWithoutSpecificFile opts selectedFiles
              then (Return, s2, [ev])
              else
                (case compile env of
                   Some e \<Rightarrow> (Throw e, s2, [ev])
                 | None \<Rightarrow>
                   let s3 = exec (pool_inputs env) s2 in
                   (case pMap_result env of
                      Some e \<Rightarrow> (Throw e, s3, [ev])
                    | None \<Rightarrow>
                      (case storeFailedTestFiles env of
                         Inl e \<Rightarrow> (Throw e, s3, [ev])
                       | Inr None \<Rightarrow> (Done, s3, [ev])
                       | Inr (Some fs) \<Rightarrow>
                           (case runStatus s3 of
                              None \<Rightarrow> (Throw undefined_runStatus, s3, [ev])
                            | Some rs3 \<Rightarrow>
                                (Done,
                                 s3\<lparr>runStatus := Some (emitStateChange (touched_files_event fs) rs3)\<rparr>,
                                 [ev])))))))"

text \<open>The result of one invocation: what the promise of \<open>run\<close> settles to (\<open>Inl\<close> a
  rejection; \<open>Inr None\<close> would be \<open>undefined\<close>), the \<open>run\<close> events emitted, and the closure
  at the end.\<close>

record run_result =
  returned :: "error + RunStatus option"
  announced :: "run_event list"
  closure :: run_state

text \<open>Lines 312-313.\<close>

definition finalize :: "run_state \<Rightarrow> run_event list \<Rightarrow> run_result" where
  "finalize s evs =
     (let s1 = s\<lparr>timeoutTrigger := discard (timeoutTrigger s)\<rparr> in
      case runStatus s1 of
        None \<Rightarrow> \<lparr>returned = Inl undefined_runStatus, announced = evs, closure = s1\<rparr>
      | Some rs \<Rightarrow>
          \<lparr>returned = Inr (Some (RunStatus_end rs)), announced = evs,
           closure = s1\<lparr>runStatus := Some (RunStatus_end rs)\<rparr>\<rparr>)"

definition run :: "options \<Rightarrow> environment \<Rightarrow> run_args \<Rightarrow> run_result" where
  "run opts env args =
     (let s0 = exec (replicate (sigints_while_finding env) Sigint) (initial opts);
          (testFiles, sel, setupOrGlobError) = select_files env args
      in case make_selectionInsights args testFiles sel of
           Inl e \<Rightarrow> \<lparr>returned = Inl e, announced = [], closure = s0\<rparr>
         | Inr ins \<Rightarrow>
           (case try_body opts env sel setupOrGlobError ins s0 of
              (Return, s1, evs) \<Rightarrow> \<lparr>returned = Inr (runStatus s1), announced = evs, closure = s1\<rparr>
            | (Done, s1, evs) \<Rightarrow> finalize s1 evs
            | (Throw e, s1, evs) \<Rightarrow>
                (case runStatus s1 of
                   None \<Rightarrow> \<lparr>returned = Inl undefined_runStatus, announced = evs, closure = s1\<rparr>
                 | Some rs \<Rightarrow>
                     finalize (s1\<lparr>runStatus := Some (emitStateChange (internal_error_event e) rs)\<rparr>)
                       evs)))"

section \<open>Notions used to state the properties\<close>

text \<open>The part of the closure that no callback assigns: the two flags read from the
  options and the function the watchdog holds.\<close>

definition static :: "run_state \<Rightarrow> bool \<times> bool \<times> callback" where
  "static s = (failFast s, debugging s, fn (timeoutTrigger s))"

text \<open>\<open>s\<close> is a closure of a run of the Api with options \<open>opts\<close>.\<close>

definition configured :: "options \<Rightarrow> run_state \<Rightarrow> bool" where
  "configured opts s =
     (failFast s = opt_failFast opts \<and> debugging s = (opt_debug opts \<noteq> None)
      \<and> fn (timeoutTrigger s) = fn (make_timeoutTrigger opts))"

text \<open>The calls made on Worker Handles between \<open>s\<close> and a later \<open>s'\<close>.\<close>

definition new_calls :: "run_state \<Rightarrow> run_state \<Rightarrow> call list" where
  "new_calls s s' = drop (length (calls s)) (calls s')"

text \<open>The timed-out set after the files of the workers \<open>ws\<close> were added to it in order.\<close>

definition add_files :: "worker list \<Rightarrow> string list \<Rightarrow> string list" where
  "add_files ws fs = foldl (\<lambda>acc w. set_add (worker_file w) acc) fs ws"

text \<open>How often \<open>end()\<close> was called on the status of a closure, if it has one.\<close>

definition ended_of :: "run_state \<Rightarrow> nat option" where
  "ended_of s = map_option ended (runStatus s)"

text \<open>What a status was constructed with, and that of the status of a closure, if it has
  one: neither \<open>emitStateChange\<close> nor \<open>end()\<close> changes it.\<close>

definition constructed_with :: "RunStatus \<Rightarrow> nat \<times> (nat \<times> nat \<times> nat) option \<times> selection_insights" where
  "constructed_with rs = (fileCount rs, parallelRuns rs, selectionInsights rs)"

definition construction_of :: "run_state \<Rightarrow> (nat \<times> (nat \<times> nat \<times> nat) option \<times> selection_insights) option" where
  "construction_of s = map_option constructed_with (runStatus s)"

text \<open>Where the chunk of index \<open>k\<close> starts in a list of \<open>n\<close> files split \<open>N\<close> ways.\<close>

definition chunk_offset :: "nat \<Rightarrow> nat \<Rightarrow> nat \<Rightarrow> nat" where
  "chunk_offset n k N = min k (n mod N) + k * (n div N)"

text \<open>The watchdog has no timer as long as the run has no status.\<close>

definition unarmed_without_status :: "run_state \<Rightarrow> bool" where
  "unarmed_without_status s = (runStatus s = None \<longrightarrow> timer (timeoutTrigger s) = None)"


section \<open>Concrete runs\<close>

text \<open>A fail-fast run with a timeout of ten seconds, its status for two files, and the
  closure once the pool has started both files.\<close>

definition example_options :: options where
  "example_options =
     \<lparr>opt_failFast = True, opt_timeout = Some 10000, opt_debug = None, opt_serial = False,
      opt_concurrency = Some 4, opt_parallelRuns = None, opt_sortTestFiles = None\<rparr>"

definition example_serial :: options where
  "example_serial = example_options\<lparr>opt_serial := True\<rparr>"

text \<open>A comparator: shorter names first.\<close>

definition by_length :: "string \<Rightarrow> string \<Rightarrow> int" where
  "by_length a b = int (length a) - int (length b)"

definition example_status :: RunStatus where
  "example_status =
     new_RunStatus 2 None
       \<lparr>applied_filter = [], ignoredFilterPatternFiles = [], testFileCount = 2,
        selectionCount = 2\<rparr>"

definition example_running :: run_state where
  "example_running =
     exec [MapperCalled 0 ''a.js'', MapperCalled 5 ''b.js'']
       ((initial example_options)\<lparr>runStatus := Some example_status\<rparr>)"

definition test_failed :: state_change where
  "test_failed = (plain_event ''test-failed'')\<lparr>testFile := Some ''a.js''\<rparr>"



text \<open>Debug mode, without a single active file.\<close>

definition example_debug :: options where
  "example_debug = example_options\<lparr>opt_debug := Some False\<rparr>"

section \<open>Facts about the watchdog\<close>

lemma deadline_debounce_fresh:
  "timer tt = None \<Longrightarrow> deadline (debounce now tt) = Some (now + waitMs tt)"
  by (simp add: deadline_def debounce_def setCappedTimeout_def)

lemma deadline_debounce_live:
  "timer tt = Some t \<Longrightarrow> \<not> cleared t \<Longrightarrow> deadline (debounce now tt) = Some (now + duration t)"
  by (simp add: deadline_def debounce_def refresh_def)

lemma deadline_discard: "deadline (discard tt) = None"
  by (cases "timer tt") (simp_all add: deadline_def discard_def)

lemma debounce_cleared_id:
  "timer tt = Some t \<Longrightarrow> cleared t \<Longrightarrow> debounce now tt = tt"
  by (simp add: debounce_def refresh_def)

lemma debounces_after_discard:
  "timer tt \<noteq> None \<Longrightarrow> foldr debounce ns (discard tt) = discard tt"
proof (induction ns)
  case Nil
  then show ?case by simp
next
  case (Cons n ns)
  then obtain t where t: "timer tt = Some t" by auto
  have "timer (discard tt) = Some (t\<lparr>due := None, cleared := True\<rparr>)"
    using t by (simp add: discard_def)
  then have "debounce n (discard tt) = discard tt"
    by (rule debounce_cleared_id) simp
  with Cons show ?case by simp
qed

lemma expire_unarmed: "deadline tt = None \<Longrightarrow> expire F tt = (tt, None)"
  by (auto simp: deadline_def expire_def split: option.splits)

lemma fn_debounce: "fn (debounce now tt) = fn tt"
  by (simp add: debounce_def split: option.splits)

lemma fn_discard: "fn (discard tt) = fn tt"
  by (simp add: discard_def)

lemma fn_ignoreFor: "fn (ignoreFor now p tt) = fn tt"
  by (simp add: ignoreFor_def)

lemma fn_expire: "fn (fst (expire now tt)) = fn tt"
  by (simp add: expire_def split: option.splits)

text \<open>
  C6. \<open>ignoreFor(P)\<close> called at time \<open>T\<close> sets the ignore horizon to the maximum of the
  current horizon and \<open>T + P\<close>, so the horizon never moves backward. When the timer goes
  off at a time \<open>F\<close> strictly before the horizon, the callback is not called and the
  watchdog is left with no deadline: no later expiry does anything until \<open>debounce()\<close> is
  called again.
\<close>

theorem ignoreFor_forward_and_suppressed_expiry:
  "ignoreUntil (ignoreFor T P tt) = max (ignoreUntil tt) (T + P)
   \<and> ignoreUntil tt \<le> ignoreUntil (ignoreFor T P tt)
   \<and> (deadline tt = Some d \<and> d \<le> F \<and> F < ignoreUntil tt \<longrightarrow>
        snd (expire F tt) = None
        \<and> deadline (fst (expire F tt)) = None
        \<and> (\<forall>F'. expire F' (fst (expire F tt)) = (fst (expire F tt), None)))"
  by (auto simp: ignoreFor_def deadline_def expire_def trigger_def split: option.splits)

theorem ignoreFor_forward_and_suppressed_expiry_witness:
  "deadline (ignoreFor 0 500 (debounce 0 (new_TimeoutTrigger EmptyFunction 100))) = Some 100
   \<and> (100::int) \<le> 100
   \<and> 100 < ignoreUntil (ignoreFor 0 500 (debounce 0 (new_TimeoutTrigger EmptyFunction 100)))
   \<and> snd (expire 100 (ignoreFor 0 500 (debounce 0 (new_TimeoutTrigger EmptyFunction 100)))) = None
   \<and> deadline (fst (expire 100 (ignoreFor 0 500 (debounce 0 (new_TimeoutTrigger EmptyFunction 100)))))
       = None"
  using ignoreFor_forward_and_suppressed_expiry
    [of 0 500 "ignoreFor 0 500 (debounce 0 (new_TimeoutTrigger EmptyFunction 100))" 100 100]
  by (simp add: ignoreFor_def deadline_def debounce_def new_TimeoutTrigger_def
      setCappedTimeout_def)

text \<open>
  C7, as stated, fails: a watchdog created with a wait of 100 and debounced at time 0 has a
  timer; after \<open>discard()\<close>, a \<open>debounce()\<close> at time 10 leaves it without a deadline
  instead of arming it for 110.
\<close>

theorem debounce_after_discard_counterexample:
  "deadline (debounce 10 (discard (debounce 0 (new_TimeoutTrigger EmptyFunction 100)))) = None
   \<and> deadline (debounce 10 (discard (debounce 0 (new_TimeoutTrigger EmptyFunction 100))))
       \<noteq> Some (10 + 100)"
  by (simp add: deadline_def debounce_def discard_def new_TimeoutTrigger_def
      setCappedTimeout_def refresh_def)

text \<open>
  C7, amended. \<open>discard()\<close> cancels any pending timer. When no timer had been created yet,
  a subsequent \<open>debounce()\<close> schedules one for now+wait. When a timer had been created,
  the discard is permanent: whatever \<open>debounce()\<close> calls follow, the watchdog stays as
  \<open>discard()\<close> left it, and no expiry calls the callback.
\<close>

theorem discard_permanent_once_timer_exists:
  "deadline (discard tt) = None
   \<and> (timer tt = None \<longrightarrow> deadline (debounce now (discard tt)) = Some (now + waitMs tt))
   \<and> (timer tt \<noteq> None \<longrightarrow>
        foldr debounce ns (discard tt) = discard tt
        \<and> expire F (foldr debounce ns (discard tt)) = (discard tt, None))"
  using debounces_after_discard [of tt ns] expire_unarmed [OF deadline_discard, of F tt]
  by (auto simp: deadline_discard)
     (simp add: deadline_def debounce_def discard_def setCappedTimeout_def)

theorem discard_permanent_once_timer_exists_witness:
  "timer (debounce 0 (new_TimeoutTrigger EmptyFunction 100)) \<noteq> None
   \<and> foldr debounce [10, 20] (discard (debounce 0 (new_TimeoutTrigger EmptyFunction 100)))
       = discard (debounce 0 (new_TimeoutTrigger EmptyFunction 100))
   \<and> timer (new_TimeoutTrigger EmptyFunction 100) = None
   \<and> deadline (debounce 10 (discard (new_TimeoutTrigger EmptyFunction 100))) = Some 110"
  using discard_permanent_once_timer_exists
    [of "debounce 0 (new_TimeoutTrigger EmptyFunction 100)" 10 "[10, 20]" 30]
    discard_permanent_once_timer_exists [of "new_TimeoutTrigger EmptyFunction 100" 10 "[]" 30]
  by (simp add: debounce_def new_TimeoutTrigger_def)

section \<open>Concurrency of the pool\<close>

text \<open>
  C2, as stated, fails: with serial mode on and a concurrency of 4 configured, the pool
  runs with concurrency 1, not 4.
\<close>

theorem explicit_concurrency_wins_counterexample:
  "opt_serial example_serial \<and> opt_concurrency example_serial = Some 4
   \<and> resolve_concurrency example_serial False 8 = 1
   \<and> resolve_concurrency example_serial False 8 \<noteq> 4"
  by (simp add: resolve_concurrency_def example_serial_def example_options_def)

text \<open>
  C2, amended. Serial mode forces concurrency 1; otherwise a configured positive
  concurrency is used; otherwise a CI environment yields 2; otherwise the number of
  logical cores of the host, with a floor of 1.
\<close>

theorem concurrency_precedence:
  "(opt_serial opts \<longrightarrow> resolve_concurrency opts isCi cpus = 1)
   \<and> (\<not> opt_serial opts \<and> opt_concurrency opts = Some c \<and> 0 < c \<longrightarrow>
        resolve_concurrency opts isCi cpus = c)
   \<and> (\<not> opt_serial opts \<and> (\<forall>c. opt_concurrency opts = Some c \<longrightarrow> c \<le> 0) \<and> isCi \<longrightarrow>
        resolve_concurrency opts isCi cpus = 2)
   \<and> (\<not> opt_serial opts \<and> (\<forall>c. opt_concurrency opts = Some c \<longrightarrow> c \<le> 0) \<and> \<not> isCi \<longrightarrow>
        resolve_concurrency opts isCi cpus = max 1 (int cpus))"
  by (cases "opt_concurrency opts") (auto simp: resolve_concurrency_def Let_def)

theorem concurrency_precedence_witness:
  "opt_serial example_serial \<and> resolve_concurrency example_serial True 8 = 1
   \<and> \<not> opt_serial example_options \<and> opt_concurrency example_options = Some 4 \<and> (0::int) < 4
   \<and> resolve_concurrency example_options True 8 = 4
   \<and> resolve_concurrency (example_options\<lparr>opt_concurrency := None\<rparr>) True 8 = 2
   \<and> resolve_concurrency (example_options\<lparr>opt_concurrency := Some 0\<rparr>) False 0 = 1"
proof -
  have a: "opt_serial example_serial"
    and b: "\<not> opt_serial example_options \<and> opt_concurrency example_options = Some 4 \<and> (0::int) < 4"
    and c: "\<not> opt_serial (example_options\<lparr>opt_concurrency := None\<rparr>)
            \<and> (\<forall>c. opt_concurrency (example_options\<lparr>opt_concurrency := None\<rparr>) = Some c \<longrightarrow> c \<le> 0)"
    and d: "\<not> opt_serial (example_options\<lparr>opt_concurrency := Some 0\<rparr>)
            \<and> (\<forall>c. opt_concurrency (example_options\<lparr>opt_concurrency := Some 0\<rparr>) = Some c \<longrightarrow> c \<le> 0)"
    by (simp_all add: example_serial_def example_options_def)
  from a concurrency_precedence [of example_serial True 8 4]
  have 1: "resolve_concurrency example_serial True 8 = 1" by blast
  from b concurrency_precedence [of example_options True 8 4]
  have 2: "resolve_concurrency example_options True 8 = 4" by blast
  from c concurrency_precedence [of "example_options\<lparr>opt_concurrency := None\<rparr>" True 8 4]
  have 3: "resolve_concurrency (example_options\<lparr>opt_concurrency := None\<rparr>) True 8 = 2" by blast
  from d concurrency_precedence [of "example_options\<lparr>opt_concurrency := Some 0\<rparr>" False 0 4]
  have 4: "resolve_concurrency (example_options\<lparr>opt_concurrency := Some 0\<rparr>) False 0 = 1"
    by simp
  from a b 1 2 3 4 show ?thesis by simp
qed

section \<open>Sorting and splitting\<close>

lemma mset_insert_by: "mset (insert_by cmp x xs) = add_mset x (mset xs)"
  by (induction xs) simp_all

lemma mset_sort_by: "mset (sort_by cmp xs) = mset xs"
  by (induction xs) (simp_all add: sort_by_def mset_insert_by)

lemma set_insert_by: "set (insert_by cmp x xs) = insert x (set xs)"
  by (induction xs) auto

lemma sorted_insert_by:
  assumes tot: "\<And>a b. cmp a b \<le> 0 \<or> cmp b a \<le> 0"
    and trans: "\<And>a b c. cmp a b \<le> 0 \<Longrightarrow> cmp b c \<le> 0 \<Longrightarrow> cmp a c \<le> 0"
  shows "sorted_wrt (\<lambda>a b. cmp a b \<le> 0) xs \<Longrightarrow> sorted_wrt (\<lambda>a b. cmp a b \<le> 0) (insert_by cmp x xs)"
proof (induction xs)
  case Nil
  then show ?case by simp
next
  case (Cons y ys)
  show ?case
  proof (cases "cmp x y \<le> 0")
    case True
    with Cons.prems trans show ?thesis by auto
  next
    case False
    with tot have "cmp y x \<le> 0" by blast
    with False Cons show ?thesis by (auto simp: set_insert_by)
  qed
qed

lemma sorted_sort_by:
  assumes "\<And>a b. cmp a b \<le> 0 \<or> cmp b a \<le> 0"
    and "\<And>a b c. cmp a b \<le> 0 \<Longrightarrow> cmp b c \<le> 0 \<Longrightarrow> cmp a c \<le> 0"
  shows "sorted_wrt (\<lambda>a b. cmp a b \<le> 0) (sort_by cmp xs)"
  by (induction xs) (simp_all add: sort_by_def sorted_insert_by [OF assms])

lemma chunkd_slice:
  "chunkd xs k N = take (chunk_offset (length xs) (Suc k) N - chunk_offset (length xs) k N)
                     (drop (chunk_offset (length xs) k N) xs)"
  by (simp add: chunkd_def chunk_offset_def Let_def min_def)

lemma chunk_offset_mono: "chunk_offset n k N \<le> chunk_offset n (Suc k) N"
  by (simp add: chunk_offset_def min_def)

lemma take_drop_append:
  "a \<le> b \<Longrightarrow> take a xs @ take (b - a) (drop a xs) = take b xs"
  by (metis le_add_diff_inverse take_add)

lemma concat_chunks:
  "concat (map (\<lambda>i. chunkd xs i N) [0..<k]) = take (chunk_offset (length xs) k N) xs"
proof (induction k)
  case 0
  then show ?case by (simp add: chunk_offset_def)
next
  case (Suc k)
  then show ?case
    by (simp add: chunkd_slice take_drop_append [OF chunk_offset_mono])
qed

lemma chunk_offset_total:
  assumes "0 < N"
  shows "chunk_offset n N N = n"
proof -
  from assms have "n mod N < N" by simp
  then have "min N (n mod N) = n mod N" by simp
  then show ?thesis by (simp add: chunk_offset_def)
qed

lemma concat_all_chunks: "0 < N \<Longrightarrow> concat (map (\<lambda>i. chunkd xs i N) [0..<N]) = xs"
  by (simp add: concat_chunks chunk_offset_total)

lemma plan_parallel:
  "fst (plan (opts\<lparr>opt_parallelRuns := Some (i, N)\<rparr>) dc fs ins)
     = chunkd (sort_by (case opt_sortTestFiles opts of Some c \<Rightarrow> c | None \<Rightarrow> dc) fs) i N"
  by (simp add: plan_def Let_def)

text \<open>
  C9. In a parallel run of \<open>N\<close> jobs (\<open>N\<close> at least 1), each job sorts the selected files with
  the configured comparator, or the default one, and takes the chunk of its index. The
  chunks of the indices \<open>0..N-1\<close>, concatenated in that order, are the sorted list, which
  holds every selected file exactly as often as the selection does: no file is left out
  and none is run twice. With a comparator that is a total preorder the sorted list is
  in order.
\<close>

theorem parallel_chunks_partition_selection:
  assumes "0 < N"
  shows "concat (map (\<lambda>i. fst (plan (opts\<lparr>opt_parallelRuns := Some (i, N)\<rparr>) dc fs ins)) [0..<N])
           = sort_by (case opt_sortTestFiles opts of Some c \<Rightarrow> c | None \<Rightarrow> dc) fs
       \<and> mset (concat (map (\<lambda>i. fst (plan (opts\<lparr>opt_parallelRuns := Some (i, N)\<rparr>) dc fs ins))
                  [0..<N]))
           = mset fs"
  using assms by (simp add: plan_parallel concat_all_chunks mset_sort_by)

theorem parallel_chunks_partition_selection_witness:
  "(0::nat) < 2
   \<and> concat (map (\<lambda>i. fst (plan (example_options\<lparr>opt_parallelRuns := Some (i, 2)\<rparr>) by_length
                          [''ccc'', ''a'', ''bb''] (selectionInsights example_status))) [0..<2])
       = sort_by (case opt_sortTestFiles example_options of Some c \<Rightarrow> c | None \<Rightarrow> by_length)
           [''ccc'', ''a'', ''bb'']
   \<and> sort_by by_length [''ccc'', ''a'', ''bb''] = [''a'', ''bb'', ''ccc'']
   \<and> chunkd [''a'', ''bb'', ''ccc''] 0 2 = [''a'', ''bb'']
   \<and> chunkd [''a'', ''bb'', ''ccc''] 1 2 = [''ccc'']"
proof -
  have h: "(0::nat) < 2" by simp
  show ?thesis
    using h parallel_chunks_partition_selection
      [OF h, of example_options by_length "[''ccc'', ''a'', ''bb'']"
         "selectionInsights example_status"]
    by (simp add: sort_by_def by_length_def chunkd_def)
qed

section \<open>Facts about the callbacks\<close>

lemma exit_all_eq: "exit_all ws s = s\<lparr>calls := calls s @ map Exit ws\<rparr>"
  by (induction ws arbitrary: s) simp_all

lemma notify_all_eq: "notify_all ws s = s\<lparr>calls := calls s @ map NotifyOfPeerFailure ws\<rparr>"
  by (induction ws arbitrary: s) simp_all

lemma exit_timed_out_eq:
  "exit_timed_out ws s =
     s\<lparr>timedOutWorkerFiles := add_files ws (timedOutWorkerFiles s),
       calls := calls s @ map Exit ws\<rparr>"
  by (induction ws arbitrary: s) (simp_all add: add_files_def)

lemma set_set_add: "set (set_add x xs) = insert x (set xs)"
  by (auto simp: set_add_def)

lemma set_add_files: "set (add_files ws fs) = set fs \<union> worker_file ` set ws"
  unfolding add_files_def by (induction ws arbitrary: fs) (auto simp: set_set_add)

lemma distinct_set_add: "distinct xs \<Longrightarrow> distinct (set_add x xs)"
  by (simp add: set_add_def)

lemma worker_listener_eq:
  "worker_listener now d s =
     (case d of
        TestTimeoutConfigured p \<Rightarrow>
          if \<not> debugging s then s\<lparr>timeoutTrigger := ignoreFor now p (timeoutTrigger s)\<rparr> else s
      | OtherData t \<Rightarrow> s)"
  by (cases d) simp_all

lemmas handler_defs =
  interruptHandler_def timer_expires_def stateChange_listener_def mapper_def settled_def
  worker_listener_eq exit_all_eq notify_all_eq exit_timed_out_eq Let_def

text \<open>The events the orchestrator itself emits leave the closure as it is when they reach
  the listener, so emitting them only extends the stream.\<close>

lemma listener_ignores_synthetic:
  "stateChange_listener now (timeout_event p) s = s"
  "stateChange_listener now interrupt_event s = s"
  "stateChange_listener now (internal_error_event e) s = s"
  "stateChange_listener now (touched_files_event fs) s = s"
  "stateChange_listener now (plain_event ''stats'') s = s"
  by (simp_all add: stateChange_listener_def debounces_def is_failure_def timeout_event_def
      interrupt_event_def internal_error_event_def touched_files_event_def plain_event_def)

lemma bailed_call_fn: "bailed s \<Longrightarrow> bailed (call_fn f s)"
  by (cases f) (auto simp: handler_defs split: option.splits)

lemma bailed_step: "bailed s \<Longrightarrow> bailed (step i s)"
  by (cases i) (auto simp: handler_defs bailed_call_fn split: option.splits prod.splits worker_data.splits)

lemma exec_Nil [simp]: "exec [] s = s"
  by (simp add: exec_def)

lemma exec_Cons [simp]: "exec (i # inputs) s = exec inputs (step i s)"
  by (simp add: exec_def)

lemma exec_append: "exec (xs @ ys) s = exec ys (exec xs s)"
  by (simp add: exec_def)

lemma bailed_exec: "bailed s \<Longrightarrow> bailed (exec inputs s)"
  by (induction inputs arbitrary: s) (simp_all add: bailed_step)


lemma ended_call_fn: "ended_of (call_fn f s) = ended_of s"
  by (cases f) (auto simp: ended_of_def handler_defs emitStateChange_def split: option.splits)

lemma ended_step: "ended_of (step i s) = ended_of s"
  by (cases i) (auto simp: ended_of_def handler_defs emitStateChange_def ended_call_fn [unfolded ended_of_def]
      split: option.splits prod.splits worker_data.splits)

lemma ended_exec: "ended_of (exec inputs s) = ended_of s"
  by (induction inputs arbitrary: s) (simp_all add: ended_step)

lemma status_exec: "runStatus s \<noteq> None \<Longrightarrow> runStatus (exec inputs s) \<noteq> None"
  using ended_exec [of inputs s] by (auto simp: ended_of_def)

lemma constructed_emit [simp]: "constructed_with (emitStateChange ev rs) = constructed_with rs"
  by (simp add: constructed_with_def emitStateChange_def)

lemma constructed_end [simp]: "constructed_with (RunStatus_end rs) = constructed_with rs"
  by (simp add: constructed_with_def RunStatus_end_def)




lemma construction_of_status [simp]:
  "construction_of (s\<lparr>runStatus := Some rs\<rparr>) = Some (constructed_with rs)"
  by (simp add: construction_of_def)


lemma timedOut_call_fn:
  "x \<in> set (timedOutWorkerFiles s) \<Longrightarrow> x \<in> set (timedOutWorkerFiles (call_fn f s))"
  by (cases f) (auto simp: handler_defs set_add_files split: option.splits)

lemma timedOut_step:
  "x \<in> set (timedOutWorkerFiles s) \<Longrightarrow> x \<in> set (timedOutWorkerFiles (step i s))"
  by (cases i) (auto simp: handler_defs timedOut_call_fn split: option.splits prod.splits worker_data.splits)

lemma timedOut_exec:
  "x \<in> set (timedOutWorkerFiles s) \<Longrightarrow> x \<in> set (timedOutWorkerFiles (exec inputs s))"
  by (induction inputs arbitrary: s) (simp_all add: timedOut_step)

lemma distinct_call_fn: "pendingWorkers (call_fn f s) = pendingWorkers s"
  by (cases f) (auto simp: handler_defs split: option.splits)

lemma distinct_step: "distinct (pendingWorkers s) \<Longrightarrow> distinct (pendingWorkers (step i s))"
  by (cases i) (auto simp: handler_defs distinct_call_fn distinct_set_add set_delete_def distinct_removeAll
      split: option.splits prod.splits worker_data.splits)

lemma distinct_exec: "distinct (pendingWorkers s) \<Longrightarrow> distinct (pendingWorkers (exec inputs s))"
  by (induction inputs arbitrary: s) (simp_all add: distinct_step)


lemma static_call_fn: "static (call_fn f s) = static s"
  by (cases f) (auto simp: static_def handler_defs split: option.splits)

lemma static_step: "static (step i s) = static s"
proof (cases i)
  case (TimerExpires now)
  obtain tt r where e: "expire now (timeoutTrigger s) = (tt, r)" by fastforce
  with fn_expire [of now "timeoutTrigger s"] have "fn tt = fn (timeoutTrigger s)" by simp
  then have "static (s\<lparr>timeoutTrigger := tt\<rparr>) = static s" by (simp add: static_def)
  with e TimerExpires show ?thesis
    by (cases r) (simp_all add: timer_expires_def static_call_fn)
qed (auto simp: static_def handler_defs fn_debounce fn_discard fn_ignoreFor
       split: option.splits worker_data.splits)

lemma static_exec: "static (exec inputs s) = static s"
  by (induction inputs arbitrary: s) (simp_all add: static_step)

lemma configured_static: "configured opts s = (static s = (opt_failFast opts, opt_debug opts \<noteq> None, fn (make_timeoutTrigger opts)))"
  by (auto simp: configured_def static_def)

lemma configured_initial: "configured opts (initial opts)"
  by (simp add: configured_def initial_def)

lemma configured_exec: "configured opts (exec inputs s) = configured opts s"
  by (simp add: configured_static static_exec)

lemma configured_status: "configured opts (s\<lparr>runStatus := r\<rparr>) = configured opts s"
  by (simp add: configured_def)

lemma no_fork_call_fn: "forks (call_fn f s) = forks s \<and> (Fork w \<in> set (calls (call_fn f s))) = (Fork w \<in> set (calls s))"
  by (cases f) (auto simp: handler_defs split: option.splits)

lemma no_fork_step:
  "bailed s \<Longrightarrow> forks (step i s) = forks s \<and> (Fork w \<in> set (calls (step i s))) = (Fork w \<in> set (calls s))"
  by (cases i) (auto simp: handler_defs no_fork_call_fn split: option.splits prod.splits worker_data.splits)

lemma no_fork_exec:
  "bailed s \<Longrightarrow> forks (exec inputs s) = forks s \<and> (Fork w \<in> set (calls (exec inputs s))) = (Fork w \<in> set (calls s))"
  by (induction inputs arbitrary: s) (simp_all add: no_fork_step bailed_step)

lemma example_running_eq:
  "example_running =
     \<lparr>failFast = True, debugging = False, bailed = False,
      pendingWorkers = [\<lparr>wid = 0, worker_file = ''a.js''\<rparr>, \<lparr>wid = 1, worker_file = ''b.js''\<rparr>],
      timedOutWorkerFiles = [],
      timeoutTrigger = \<lparr>fn = TimeoutHandler 10000, ignoreUntil = 0, waitMs = 10000,
                          timer = Some \<lparr>duration = 10000, due = Some 10005, cleared = False\<rparr>\<rparr>,
      runStatus = Some example_status,
      calls = [Fork \<lparr>wid = 0, worker_file = ''a.js''\<rparr>, Fork \<lparr>wid = 1, worker_file = ''b.js''\<rparr>],
      forks = 2, thrown = []\<rparr>"
  by (simp add: example_running_def example_options_def initial_def make_timeoutTrigger_def
      new_TimeoutTrigger_def mapper_def set_add_def debounce_def setCappedTimeout_def refresh_def
      Let_def)

text \<open>The pending set of a run never lists a handle twice.\<close>

lemma distinct_pending_of_run:
  "distinct (pendingWorkers (exec inputs ((exec inputs0 (initial opts))\<lparr>runStatus := r\<rparr>)))"
proof -
  have "distinct (pendingWorkers (exec inputs0 (initial opts)))"
    by (rule distinct_exec) (simp add: initial_def)
  then show ?thesis by (intro distinct_exec) simp
qed

lemma count_list_map_inj: "inj f \<Longrightarrow> count_list (map f xs) (f x) = count_list xs x"
  by (induction xs) (auto dest: injD)

lemma count_list_distinct: "distinct xs \<Longrightarrow> x \<in> set xs \<Longrightarrow> count_list xs x = 1"
  by (induction xs) (auto simp: count_notin)

lemma count_notify:
  "distinct ws \<Longrightarrow> w \<in> set ws \<Longrightarrow> count_list (map NotifyOfPeerFailure ws) (NotifyOfPeerFailure w) = 1"
  by (simp add: count_list_map_inj inj_def count_list_distinct)

lemma count_exit:
  "distinct ws \<Longrightarrow> w \<in> set ws \<Longrightarrow> count_list (map Exit ws) (Exit w) = 1"
  by (simp add: count_list_map_inj inj_def count_list_distinct)

text \<open>
  C3, as stated, fails: the listener has no guard on \<open>bailed\<close>, so a second failure record
  notifies every handle that is still pending once more, and a watchdog timeout after the
  failure calls \<open>exit\<close> on the handles that are still pending. With two files running, two
  \<open>test-failed\<close> records bring two \<open>notifyOfPeerFailure\<close> calls on the handle of the second
  file; and a timeout after one \<open>test-failed\<close> record brings it an \<open>exit\<close> call.
\<close>

lemma example_after_failure:
  "step (StateChange 7 test_failed) example_running =
     \<lparr>failFast = True, debugging = False, bailed = True,
      pendingWorkers = [\<lparr>wid = 0, worker_file = ''a.js''\<rparr>, \<lparr>wid = 1, worker_file = ''b.js''\<rparr>],
      timedOutWorkerFiles = [],
      timeoutTrigger = \<lparr>fn = TimeoutHandler 10000, ignoreUntil = 0, waitMs = 10000,
                          timer = Some \<lparr>duration = 10000, due = Some 10007, cleared = False\<rparr>\<rparr>,
      runStatus = Some (emitStateChange test_failed example_status),
      calls = [Fork \<lparr>wid = 0, worker_file = ''a.js''\<rparr>, Fork \<lparr>wid = 1, worker_file = ''b.js''\<rparr>,
               NotifyOfPeerFailure \<lparr>wid = 0, worker_file = ''a.js''\<rparr>,
               NotifyOfPeerFailure \<lparr>wid = 1, worker_file = ''b.js''\<rparr>],
      forks = 2, thrown = []\<rparr>"
  by (simp add: example_running_eq stateChange_listener_def debounces_def is_failure_def
      test_failed_def plain_event_def notify_all_eq debounce_def refresh_def Let_def)

theorem notified_once_per_run_counterexample:
  "count_list
     (new_calls example_running
        (exec [StateChange 7 test_failed, StateChange 8 test_failed] example_running))
     (NotifyOfPeerFailure \<lparr>wid = 1, worker_file = ''b.js''\<rparr>) = 2
   \<and> Exit \<lparr>wid = 1, worker_file = ''b.js''\<rparr>
       \<in> set (new_calls example_running
                (exec [StateChange 7 test_failed, TimerExpires 20000] example_running))"
  by (simp add: example_after_failure)
     (simp add: example_running_eq new_calls_def stateChange_listener_def debounces_def
      is_failure_def test_failed_def plain_event_def notify_all_eq debounce_def refresh_def
      timer_expires_def expire_def trigger_def exit_timed_out_eq emitStateChange_def Let_def)

text \<open>
  C3, amended. With fail-fast enabled, when the listener receives a \<open>hook-failed\<close>,
  \<open>test-failed\<close> or \<open>worker-failed\<close> record: \<open>bailed\<close> is true afterwards and stays true
  whatever is delivered later; the mapper no longer forks anything, so no further handle is
  ever spawned; and in reaction to each such record (not once per run) the calls made are
  exactly one \<open>notifyOfPeerFailure\<close> on each handle pending at that moment, in the order of
  the set, and no \<open>exit\<close>.
\<close>

theorem fail_fast_failure_bails_and_notifies:
  assumes "failFast s" and "is_failure record" and "distinct (pendingWorkers s)"
  shows "let s' = stateChange_listener now record s in
           bailed s'
         \<and> (\<forall>inputs. bailed (exec inputs s'))
         \<and> (\<forall>t f. mapper t f s' = s')
         \<and> (\<forall>inputs. forks (exec inputs s') = forks s'
               \<and> (\<forall>w. Fork w \<in> set (calls (exec inputs s')) \<longrightarrow> Fork w \<in> set (calls s')))
         \<and> new_calls s s' = map NotifyOfPeerFailure (pendingWorkers s)
         \<and> (\<forall>w \<in> set (pendingWorkers s).
               count_list (new_calls s s') (NotifyOfPeerFailure w) = 1
               \<and> Exit w \<notin> set (new_calls s s'))"
proof -
  define s' where "s' = stateChange_listener now record s"
  have b: "bailed s'"
    using assms(1,2) by (simp add: s'_def handler_defs)
  have c: "new_calls s s' = map NotifyOfPeerFailure (pendingWorkers s)"
    using assms(1,2) by (simp add: s'_def new_calls_def handler_defs)
  have m: "mapper t f s' = s'" for t f
    using b by (simp add: mapper_def)
  have e: "Exit w \<notin> set (new_calls s s')" for w
    by (auto simp: c)
  show ?thesis
    unfolding Let_def s'_def [symmetric]
    using b m e c bailed_exec [OF b] no_fork_exec [OF b] count_notify [OF assms(3)]
    by simp
qed

theorem fail_fast_failure_bails_and_notifies_witness:
  "failFast example_running \<and> is_failure test_failed \<and> distinct (pendingWorkers example_running)
   \<and> bailed (stateChange_listener 7 test_failed example_running)
   \<and> mapper 8 ''c.js'' (stateChange_listener 7 test_failed example_running)
       = stateChange_listener 7 test_failed example_running
   \<and> new_calls example_running (stateChange_listener 7 test_failed example_running)
       = [NotifyOfPeerFailure \<lparr>wid = 0, worker_file = ''a.js''\<rparr>,
          NotifyOfPeerFailure \<lparr>wid = 1, worker_file = ''b.js''\<rparr>]"
proof -
  have h1: "failFast example_running"
    and h2: "is_failure test_failed"
    and h3: "distinct (pendingWorkers example_running)"
    by (simp_all add: example_running_eq is_failure_def test_failed_def plain_event_def)
  from fail_fast_failure_bails_and_notifies [OF h1 h2 h3, of 7] h1 h2 h3 show ?thesis
    by (simp add: Let_def example_running_eq)
qed

text \<open>The watchdog's timer only exists in a run that has its status: every callback keeps
  \<open>unarmed_without_status\<close>, which holds of the initial closure and once the status is
  constructed. So the timeout handler always finds a status.\<close>

lemma status_none_step: "(runStatus (step i s) = None) = (runStatus s = None)"
  using ended_step [of i s] by (auto simp: ended_of_def)

lemma trigger_call_fn: "timeoutTrigger (call_fn f s) = timeoutTrigger s"
  by (cases f) (auto simp: handler_defs split: option.splits)

lemma timer_discard: "(timer (discard tt) = None) = (timer tt = None)"
  by (cases "timer tt") (simp_all add: discard_def)

lemma timer_expire: "(timer (fst (expire now tt)) = None) = (timer tt = None)"
  by (auto simp: expire_def split: option.splits)

lemma timer_none_step:
  assumes "runStatus s = None" and "timer (timeoutTrigger s) = None"
  shows "timer (timeoutTrigger (step i s)) = None"
proof (cases i)
  case (TimerExpires now)
  from assms(2) have "expire now (timeoutTrigger s) = (timeoutTrigger s, None)"
    by (simp add: expire_def)
  with TimerExpires assms(2) show ?thesis by (simp add: timer_expires_def)
next
  case (WorkerStateChange now d)
  with assms show ?thesis by (cases d) (simp_all add: ignoreFor_def)
qed (use assms in \<open>simp_all add: handler_defs timer_discard\<close>)

lemma unarmed_without_status_step:
  "unarmed_without_status s \<Longrightarrow> unarmed_without_status (step i s)"
  unfolding unarmed_without_status_def
  using status_none_step [of i s] timer_none_step [of s i] by auto

lemma unarmed_without_status_exec:
  "unarmed_without_status s \<Longrightarrow> unarmed_without_status (exec inputs s)"
  by (induction inputs arbitrary: s) (simp_all add: unarmed_without_status_step)

lemma unarmed_without_status_initial: "unarmed_without_status (initial opts)"
  by (simp add: unarmed_without_status_def initial_def make_timeoutTrigger_def
      new_TimeoutTrigger_def split: option.splits)

lemma unarmed_without_status_created:
  "unarmed_without_status (s\<lparr>runStatus := Some rs\<rparr>)"
  by (simp add: unarmed_without_status_def)

lemma listener_timed_out:
  "testFile record = Some f \<Longrightarrow> f \<in> set (timedOutWorkerFiles s) \<Longrightarrow>
   timeoutTrigger (stateChange_listener now record s) = timeoutTrigger s"
  by (simp add: handler_defs debounces_def)

lemma expire_due:
  "deadline tt = Some d \<Longrightarrow> d \<le> now \<Longrightarrow> ignoreUntil tt \<le> now \<Longrightarrow>
   \<exists>tt'. expire now tt = (tt', Some (fn tt)) \<and> deadline tt' = None"
  by (auto simp: deadline_def expire_def trigger_def split: option.splits)

lemma fn_configured:
  "configured opts s \<Longrightarrow> opt_timeout opts = Some timeout \<Longrightarrow> opt_debug opts = None \<Longrightarrow>
   fn (timeoutTrigger s) = TimeoutHandler timeout"
  by (simp add: configured_def make_timeoutTrigger_def new_TimeoutTrigger_def)

text \<open>
  C4. In a run with a timeout configured and debug mode off, when the timer of the watchdog
  goes off at or past the ignore horizon: \<open>bailed\<close> becomes true when fail-fast is on and
  keeps its value when it is off; exactly one event is added to the status's stream, the
  \<open>timeout\<close> event with the configured period; the calls made are one \<open>exit\<close> on each
  handle pending at that moment and nothing else; the files of these handles are in the
  timed-out set afterwards, and from then on no record from one of these files makes the
  listener debounce the watchdog.
\<close>

theorem watchdog_timeout_exits_pending:
  assumes conf: "configured opts s" "opt_timeout opts = Some timeout" "opt_debug opts = None"
    and due: "deadline (timeoutTrigger s) = Some d" "d \<le> now" "ignoreUntil (timeoutTrigger s) \<le> now"
    and status: "runStatus s = Some rs"
  shows "let s' = timer_expires now s in
           (opt_failFast opts \<longrightarrow> bailed s')
         \<and> (\<not> opt_failFast opts \<longrightarrow> bailed s' = bailed s)
         \<and> (\<exists>rs'. runStatus s' = Some rs' \<and> events rs' = events rs @ [timeout_event timeout])
         \<and> period (timeout_event timeout) = Some timeout
         \<and> new_calls s s' = map Exit (pendingWorkers s)
         \<and> set (timedOutWorkerFiles s') = set (timedOutWorkerFiles s) \<union> worker_file ` set (pendingWorkers s)
         \<and> (\<forall>w \<in> set (pendingWorkers s). \<forall>inputs t record.
               testFile record = Some (worker_file w) \<longrightarrow>
               timeoutTrigger (stateChange_listener t record (exec inputs s'))
                 = timeoutTrigger (exec inputs s'))"
proof -
  from expire_due [OF due] obtain tt' where
    e: "expire now (timeoutTrigger s) = (tt', Some (fn (timeoutTrigger s)))" by blast
  have f: "fn (timeoutTrigger s) = TimeoutHandler timeout"
    using conf by (rule fn_configured)
  have ff: "failFast s = opt_failFast opts"
    using conf(1) by (simp add: configured_def)
  define s' where "s' = timer_expires now s"
  have s': "s' = (if failFast s then s\<lparr>bailed := True\<rparr> else s)
                  \<lparr>timeoutTrigger := tt',
                   runStatus := Some (emitStateChange (timeout_event timeout) rs),
                   timedOutWorkerFiles := add_files (pendingWorkers s) (timedOutWorkerFiles s),
                   calls := calls s @ map Exit (pendingWorkers s)\<rparr>"
    using e f status by (simp add: s'_def timer_expires_def exit_timed_out_eq)
  have t: "set (timedOutWorkerFiles s') = set (timedOutWorkerFiles s) \<union> worker_file ` set (pendingWorkers s)"
    by (simp add: s' set_add_files)
  have later: "timeoutTrigger (stateChange_listener t r (exec inputs s')) = timeoutTrigger (exec inputs s')"
    if "w \<in> set (pendingWorkers s)" "testFile r = Some (worker_file w)" for w inputs t r
  proof -
    from that(1) t have "worker_file w \<in> set (timedOutWorkerFiles s')" by auto
    then have "worker_file w \<in> set (timedOutWorkerFiles (exec inputs s'))" by (rule timedOut_exec)
    with that(2) show ?thesis by (rule listener_timed_out)
  qed
  show ?thesis
    unfolding Let_def s'_def [symmetric]
    using t later ff
    by (simp add: s' new_calls_def emitStateChange_def timeout_event_def)
qed


theorem watchdog_timeout_exits_pending_witness:
  "configured example_options example_running \<and> opt_timeout example_options = Some 10000
   \<and> opt_debug example_options = None
   \<and> deadline (timeoutTrigger example_running) = Some 10005 \<and> (10005::int) \<le> 10005
   \<and> ignoreUntil (timeoutTrigger example_running) \<le> 10005
   \<and> runStatus example_running = Some example_status
   \<and> bailed (timer_expires 10005 example_running)
   \<and> new_calls example_running (timer_expires 10005 example_running)
       = [Exit \<lparr>wid = 0, worker_file = ''a.js''\<rparr>, Exit \<lparr>wid = 1, worker_file = ''b.js''\<rparr>]
   \<and> set (timedOutWorkerFiles (timer_expires 10005 example_running)) = {''a.js'', ''b.js''}
   \<and> map_option events (runStatus (timer_expires 10005 example_running))
       = Some [timeout_event 10000]"
proof -
  have h1: "configured example_options example_running"
    and h2: "opt_timeout example_options = Some 10000"
    and h3: "opt_debug example_options = None"
    and h4: "deadline (timeoutTrigger example_running) = Some 10005"
    and h5: "(10005::int) \<le> 10005"
    and h6: "ignoreUntil (timeoutTrigger example_running) \<le> 10005"
    and h7: "runStatus example_running = Some example_status"
    by (simp_all add: example_running_eq configured_def example_options_def
        make_timeoutTrigger_def new_TimeoutTrigger_def deadline_def)
  have ff: "opt_failFast example_options" by (simp add: example_options_def)
  have ev: "events example_status = []" by (simp add: example_status_def new_RunStatus_def)
  from watchdog_timeout_exits_pending [OF h1 h2 h3 h4 h5 h6 h7]
  have "bailed (timer_expires 10005 example_running)
      \<and> new_calls example_running (timer_expires 10005 example_running)
          = map Exit (pendingWorkers example_running)
      \<and> set (timedOutWorkerFiles (timer_expires 10005 example_running))
          = set (timedOutWorkerFiles example_running) \<union> worker_file ` set (pendingWorkers example_running)
      \<and> map_option events (runStatus (timer_expires 10005 example_running))
          = Some [timeout_event 10000]"
    using ff ev by (auto simp: Let_def)
  with h1 h2 h3 h4 h6 h7 show ?thesis
    by (auto simp: example_running_eq)
qed

text \<open>The interrupt handler: nothing when \<open>bailed\<close> is already true; otherwise, once the
  status exists, it sets \<open>bailed\<close>, discards the watchdog, emits one \<open>interrupt\<close> event and
  exits every pending handle.\<close>

lemma interrupt_bailed: "bailed s \<Longrightarrow> interruptHandler s = s"
  by (simp add: interruptHandler_def)

lemma interrupt_with_status:
  "\<not> bailed s \<Longrightarrow> runStatus s = Some rs \<Longrightarrow>
   interruptHandler s =
     s\<lparr>bailed := True, timeoutTrigger := discard (timeoutTrigger s),
       runStatus := Some (emitStateChange interrupt_event rs),
       calls := calls s @ map Exit (pendingWorkers s)\<rparr>"
  by (simp add: handler_defs)

text \<open>
  C5 at an interrupt that arrives before the status exists (the handler is installed at
  line 128, the status is constructed after \<open>await globs.findTests\<close>): the handler sets
  \<open>bailed\<close> and discards the watchdog, then throws on \<open>runStatus.emitStateChange\<close>. No
  \<open>interrupt\<close> event is emitted, and since \<open>bailed\<close> is now true no later interrupt emits
  one either, also once the status exists.
\<close>

theorem interrupt_before_status_emits_no_event:
  "let s = interruptHandler (initial opts) in
     bailed s \<and> runStatus s = None \<and> thrown s = [undefined_runStatus] \<and> calls s = []
     \<and> (\<forall>rs. interruptHandler (s\<lparr>runStatus := Some rs\<rparr>) = s\<lparr>runStatus := Some rs\<rparr>)"
  by (simp add: interruptHandler_def initial_def Let_def)

lemma expire_result:
  "snd (expire now tt) = None \<or> snd (expire now tt) = Some (fn tt)"
  by (auto simp: expire_def trigger_def split: option.splits)

lemma timer_expires_empty:
  assumes "fn (timeoutTrigger s) = EmptyFunction"
  shows "timer_expires now s = s\<lparr>timeoutTrigger := fst (expire now (timeoutTrigger s))\<rparr>"
proof -
  obtain tt r where e: "expire now (timeoutTrigger s) = (tt, r)" by fastforce
  with expire_result [of now "timeoutTrigger s"] assms
  have "r = None \<or> r = Some EmptyFunction" by simp
  with e show ?thesis by (auto simp: timer_expires_def)
qed

lemma fn_empty:
  "configured opts s \<Longrightarrow> opt_debug opts \<noteq> None \<or> opt_timeout opts = None \<Longrightarrow>
   fn (timeoutTrigger s) = EmptyFunction"
  by (auto simp: configured_def make_timeoutTrigger_def new_TimeoutTrigger_def split: option.splits)

text \<open>
  C10. In a run in debug mode, or without a timeout configured, the watchdog holds the
  empty function. Whatever has been delivered to the run, the expiry of the watchdog's
  timer changes nothing but the timer itself: no \<open>timeout\<close> event enters the stream, no
  handle is exited, \<open>bailed\<close> and the timed-out set keep their values. In debug mode, a
  \<open>test-timeout-configured\<close> record of a worker leaves the closure as it is, ignore horizon
  included.
\<close>

theorem disabled_watchdog_is_inert:
  assumes "configured opts s" and "opt_debug opts \<noteq> None \<or> opt_timeout opts = None"
  shows "fn (make_timeoutTrigger opts) = EmptyFunction
       \<and> (\<forall>inputs now.
             timer_expires now (exec inputs s)
               = (exec inputs s)\<lparr>timeoutTrigger := fst (expire now (timeoutTrigger (exec inputs s)))\<rparr>)
       \<and> (opt_debug opts \<noteq> None \<longrightarrow>
            (\<forall>inputs now p. worker_listener now (TestTimeoutConfigured p) (exec inputs s) = exec inputs s))"
proof -
  have c: "configured opts (exec inputs s)" for inputs
    using assms(1) by (simp add: configured_exec)
  have 1: "fn (make_timeoutTrigger opts) = EmptyFunction"
    using fn_empty [OF assms] assms(1) by (simp add: configured_def)
  have 2: "timer_expires now (exec inputs s)
             = (exec inputs s)\<lparr>timeoutTrigger := fst (expire now (timeoutTrigger (exec inputs s)))\<rparr>"
    for inputs now
    by (rule timer_expires_empty) (rule fn_empty [OF c assms(2)])
  have 3: "worker_listener now (TestTimeoutConfigured p) (exec inputs s) = exec inputs s"
    if "opt_debug opts \<noteq> None" for inputs now p
    using c [of inputs] that by (simp add: configured_def)
  from 1 2 3 show ?thesis by blast
qed


theorem disabled_watchdog_is_inert_witness:
  "configured example_debug (initial example_debug)
   \<and> opt_debug example_debug = Some False
   \<and> fn (make_timeoutTrigger example_debug) = EmptyFunction
   \<and> timer_expires 2 (exec [MapperCalled 0 ''a.js''] (initial example_debug))
       = (exec [MapperCalled 0 ''a.js''] (initial example_debug))
           \<lparr>timeoutTrigger :=
              fst (expire 2 (timeoutTrigger (exec [MapperCalled 0 ''a.js''] (initial example_debug))))\<rparr>
   \<and> worker_listener 1 (TestTimeoutConfigured 60000) (initial example_debug)
       = initial example_debug"
proof -
  have h1: "configured example_debug (initial example_debug)" by (rule configured_initial)
  have h2: "opt_debug example_debug \<noteq> None \<or> opt_timeout example_debug = None"
    by (simp add: example_debug_def)
  have h3: "opt_debug example_debug \<noteq> None"
    and h4: "opt_debug example_debug = Some False" by (simp_all add: example_debug_def)
  from disabled_watchdog_is_inert [OF h1 h2] h3
  have "fn (make_timeoutTrigger example_debug) = EmptyFunction"
    and "\<And>inputs now. timer_expires now (exec inputs (initial example_debug))
           = (exec inputs (initial example_debug))
               \<lparr>timeoutTrigger := fst (expire now (timeoutTrigger (exec inputs (initial example_debug))))\<rparr>"
    and "\<And>inputs now p. worker_listener now (TestTimeoutConfigured p) (exec inputs (initial example_debug))
           = exec inputs (initial example_debug)"
    by blast+
  from this(1) this(2) [of 2 "[MapperCalled 0 ''a.js'']"] this(3) [of 1 60000 "[]"] h1 h4
  show ?thesis by simp
qed


section \<open>Facts about \<open>Api.run\<close>\<close>


lemma events_plan: "events (snd (plan opts dc fs ins)) = []"
  by (simp add: plan_def new_RunStatus_def Let_def split: option.splits prod.splits)

lemma ended_of_status [simp]: "ended_of (s\<lparr>runStatus := Some rs\<rparr>) = Some (ended rs)"
  by (simp add: ended_of_def)




lemma try_body_announced:
  assumes "try_body opts env sel remembered ins s = (c, s', evs)"
  shows "length evs = 1"
proof -
  obtain planned rs where p: "plan opts (defaultComparator env) (selected sel) ins = (planned, rs)"
    by fastforce
  from assms p show ?thesis
    unfolding try_body_def Let_def
    by (auto split: option.splits if_splits sum.splits)
qed






lemma ended_finalize:
  "ended_of s = Some n \<Longrightarrow> \<exists>rs. returned (finalize s evs) = Inr (Some rs) \<and> ended rs = Suc n"
  by (auto simp: finalize_def ended_of_def RunStatus_end_def Let_def)


text \<open>A status is constructed exactly when the test files were found.\<close>

lemma no_status_without_files:
  assumes "findTests env = Inl e"
  shows "returned (run opts env args)
           = Inl (TypeError ''Cannot read properties of undefined (reading 'length')'')"
    and "announced (run opts env args) = []"
    and "runStatus (closure (run opts env args)) = None"
proof -
  have "ended_of (exec (replicate (sigints_while_finding env) Sigint) (initial opts)) = None"
    by (simp add: ended_exec) (simp add: ended_of_def initial_def)
  with assms show "returned (run opts env args)
           = Inl (TypeError ''Cannot read properties of undefined (reading 'length')'')"
    and "announced (run opts env args) = []"
    and "runStatus (closure (run opts env args)) = None"
    by (simp_all add: run_def select_files_def make_selectionInsights_def ended_of_def)
qed







text \<open>When the files were found and it is the selection that raises, the error is surfaced
  as the claim C1 says: one \<open>run\<close> event, then \<open>internal-error\<close>, then the final \<open>stats\<close>.\<close>

lemma selection_failure_surfaced:
  assumes "select_files env args = (Some tf, sel, Some e)" and "emit_run env = None"
  shows "length (announced (run opts env args)) = 1
       \<and> (\<exists>rs pre. returned (run opts env args) = Inr (Some rs)
             \<and> events rs = pre @ [internal_error_event e, plain_event ''stats''])"
proof -
  obtain ins where ins: "make_selectionInsights args (Some tf) sel = Inr ins"
    by (simp add: make_selectionInsights_def)
  define s0 where "s0 = exec (replicate (sigints_while_finding env) Sigint) (initial opts)"
  obtain planned rs0 where p: "plan opts (defaultComparator env) (selected sel) ins = (planned, rs0)"
    by fastforce
  define s2 where
    "s2 = exec (replicate (sigints_while_announcing env) Sigint) (s0\<lparr>runStatus := Some rs0\<rparr>)"
  have "runStatus s2 \<noteq> None" unfolding s2_def by (rule status_exec) simp
  then obtain rs2 where rs2: "runStatus s2 = Some rs2" by auto
  have "\<exists>ev. try_body opts env sel (Some e) ins s0 = (Throw e, s2, [ev])"
    using assms(2) p by (simp add: try_body_def Let_def s2_def)
  then obtain ev where tb: "try_body opts env sel (Some e) ins s0 = (Throw e, s2, [ev])" by blast
  have "run opts env args
          = finalize (s2\<lparr>runStatus := Some (emitStateChange (internal_error_event e) rs2)\<rparr>) [ev]"
    by (simp add: run_def assms(1) ins s0_def [symmetric] tb rs2 Let_def)
  then show ?thesis
    by (simp add: finalize_def emitStateChange_def RunStatus_end_def Let_def)
qed

text \<open>
  C1 at a failure of the discovery itself: when \<open>globs.findTests\<close> raises, the error is
  remembered, but line 170 then reads \<open>testFiles.length\<close> of the unassigned \<open>testFiles\<close>
  outside both \<open>try\<close> blocks. \<open>run\<close> rejects with that \<open>TypeError\<close>; no \<open>run\<close> event is
  emitted, no status is constructed and the remembered error is never surfaced.
\<close>

theorem discovery_failure_rejects_without_announcement:
  "returned (run opts (env\<lparr>findTests := Inl e\<rparr>) args)
     = Inl (TypeError ''Cannot read properties of undefined (reading 'length')'')
   \<and> announced (run opts (env\<lparr>findTests := Inl e\<rparr>) args) = []
   \<and> runStatus (closure (run opts (env\<lparr>findTests := Inl e\<rparr>) args)) = None"
  using no_status_without_files [of "env\<lparr>findTests := Inl e\<rparr>" e opts args] by simp

end
